theory Spec2Isabelle
  imports Main
begin

section \<open>Terms and literals\<close>

text \<open>
  The RDF terms of rdflib are subclasses of \<open>str\<close>: a term is a string with a kind.
  Two terms are equal when kind and string are equal; \<open>bool(t)\<close> is false exactly for
  the empty string.
\<close>

datatype rdfterm = Variable string | BNode string | URIRef string | Literal string

fun str :: "rdfterm \<Rightarrow> string" where
  "str (Variable s) = s"
| "str (BNode s) = s"
| "str (URIRef s) = s"
| "str (Literal s) = s"

definition truthy :: "rdfterm \<Rightarrow> bool" where
  "truthy t = (str t \<noteq> [])"

fun isVarOrBNode :: "rdfterm \<Rightarrow> bool" where
  "isVarOrBNode (Variable s) = True"
| "isVarOrBNode (BNode s) = True"
| "isVarOrBNode t = False"

fun isVariable :: "rdfterm \<Rightarrow> bool" where
  "isVariable (Variable s) = True"
| "isVariable t = False"

definition RDF_ns :: string where
  "RDF_ns = ''http://www.w3.org/1999/02/22-rdf-syntax-ns#''"

definition RDF_type :: rdfterm where "RDF_type = URIRef (RDF_ns @ ''type'')"
definition RDF_first :: rdfterm where "RDF_first = URIRef (RDF_ns @ ''first'')"
definition RDF_rest :: rdfterm where "RDF_rest = URIRef (RDF_ns @ ''rest'')"
definition RDF_nil :: rdfterm where "RDF_nil = URIRef (RDF_ns @ ''nil'')"

definition MAGIC :: "string \<Rightarrow> rdfterm" where
  "MAGIC name = URIRef (''http://doi.acm.org/10.1145/28659.28689#'' @ name)"

text \<open>
  The literal variants the module dispatches on with \<open>isinstance\<close>: \<open>N3Builtin\<close>
  (fields \<open>uri\<close>, \<open>argument\<close>, \<open>result\<close>), \<open>Uniterm\<close> (fields \<open>op\<close>, \<open>arg\<close>,
  \<open>naf\<close>; \<open>arg\<close> always holds the subject and the object of the triple the uniterm was
  built from, so \<open>arg[0]\<close> is the first and \<open>arg[-1]\<close> the second field here) and
  \<open>Exists\<close> (field \<open>formula\<close>). The closing \<open>else: raise\<close> of \<open>GetOp\<close> and
  \<open>GetArgs\<close> is for objects outside this type.
\<close>

datatype literal =
    N3Builtin rdfterm rdfterm rdfterm
  | Uniterm rdfterm rdfterm rdfterm bool
  | Exists literal

datatype py_error =
    PyException | InvalidSIPException | AssertionError | KeyError | IndexError | TypeError

fun SetOp :: "literal \<Rightarrow> rdfterm \<Rightarrow> py_error + literal" where
  "SetOp (N3Builtin uri a r) v = Inr (N3Builtin v a r)"
| "SetOp (Uniterm op s ob naf) v =
     (if op = RDF_type then Inr (Uniterm op s v naf) else Inr (Uniterm v s ob naf))"
| "SetOp (Exists f) v = Inl PyException"

fun GetOp :: "literal \<Rightarrow> rdfterm" where
  "GetOp (N3Builtin uri a r) = uri"
| "GetOp (Uniterm op s ob naf) = (if op = RDF_type \<and> truthy ob then ob else op)"
| "GetOp (Exists f) = GetOp f"

fun GetArgs :: "literal \<Rightarrow> bool \<Rightarrow> rdfterm list" where
  "GetArgs (N3Builtin uri a r) secondOrder = [a, r]"
| "GetArgs (Uniterm op s ob naf) secondOrder =
     (if op = RDF_type then
        (if secondOrder \<and> isVarOrBNode ob then [s, ob] else [s])
      else if isVarOrBNode op then [op, s, ob]
      else [s, ob])"
| "GetArgs (Exists f) secondOrder = GetArgs f secondOrder"

definition GetVariables :: "literal \<Rightarrow> bool \<Rightarrow> rdfterm list" where
  "GetVariables t secondOrder = filter isVariable (GetArgs t secondOrder)"

text \<open>\<open>sep.join(xs)\<close> of Python.\<close>

fun join :: "string \<Rightarrow> string list \<Rightarrow> string" where
  "join sep [] = []"
| "join sep [x] = x"
| "join sep (x # y # ys) = x @ sep @ join sep (y # ys)"

text \<open>
  \<open>getOccurrenceId\<close> builds the identifier and records it in \<open>lookup\<close> (a dictionary the
  caller passes, or the module-wide default): the new dictionary is returned with the
  identifier.
\<close>

definition occurrenceString :: "literal \<Rightarrow> string" where
  "occurrenceString u = str (GetOp u) @ ''_'' @ join ''_'' (map str (GetArgs u False))"

definition getOccurrenceId ::
  "literal \<Rightarrow> (rdfterm \<rightharpoonup> rdfterm) \<Rightarrow> rdfterm \<times> (rdfterm \<rightharpoonup> rdfterm)" where
  "getOccurrenceId u lookup =
     (let pO = URIRef (occurrenceString u) in (pO, lookup(pO \<mapsto> GetOp u)))"

section \<open>The SIP graph\<close>

text \<open>
  An rdflib \<open>Graph\<close> is a set of triples; the model keeps them in insertion order without
  duplicates. \<open>fresh\<close> numbers the blank nodes \<open>BNode()\<close> creates (rdflib draws a fresh
  random identifier). \<open>sipOrder\<close> is the attribute \<open>BuildNaturalSIP\<close> sets on the graph.
\<close>

type_synonym triple = "rdfterm \<times> rdfterm \<times> rdfterm"

datatype body = And "literal list" | Single literal

record sipGraph =
  triples :: "triple list"
  fresh :: nat
  sipOrder :: "body option"

definition Graph :: sipGraph where
  "Graph = \<lparr>triples = [], fresh = 0, sipOrder = None\<rparr>"

definition graph_add :: "triple \<Rightarrow> sipGraph \<Rightarrow> sipGraph" where
  "graph_add t g = (if t \<in> set (triples g) then g else g\<lparr>triples := triples g @ [t]\<rparr>)"

text \<open>\<open>graph.remove(pattern)\<close>: \<open>None\<close> in a position matches every term.\<close>

fun matches :: "rdfterm option \<times> rdfterm option \<times> rdfterm option \<Rightarrow> triple \<Rightarrow> bool" where
  "matches (ps, pp, po) (s, p, ob) =
     ((ps = None \<or> ps = Some s) \<and> (pp = None \<or> pp = Some p) \<and> (po = None \<or> po = Some ob))"

definition graph_remove ::
  "rdfterm option \<times> rdfterm option \<times> rdfterm option \<Rightarrow> sipGraph \<Rightarrow> sipGraph" where
  "graph_remove pat g = g\<lparr>triples := filter (\<lambda>t. \<not> matches pat t) (triples g)\<rparr>"

definition objects :: "triple list \<Rightarrow> rdfterm \<Rightarrow> rdfterm \<Rightarrow> rdfterm list" where
  "objects ts s p = map (\<lambda>t. snd (snd t)) (filter (matches (Some s, Some p, None)) ts)"

text \<open>\<open>first(seq)\<close> of \<open>rdflib.util\<close>: the first element, or \<open>None\<close>.\<close>

fun first :: "'a list \<Rightarrow> 'a option" where
  "first [] = None"
| "first (x # xs) = Some x"

definition newBNode :: "sipGraph \<Rightarrow> rdfterm \<times> sipGraph" where
  "newBNode g = (BNode (CHR ''N'' # replicate (fresh g) CHR ''x''), g\<lparr>fresh := Suc (fresh g)\<rparr>)"

text \<open>
  rdflib's \<open>Collection\<close> (an external library) keeps an RDF list in the graph. A
  collection is created and filled at once everywhere in this module, so the model
  carries the last cell along instead of walking the \<open>rdf:rest\<close> links on every append:
  \<open>append\<close> writes into the last cell when it has no \<open>rdf:first\<close> yet, and links a new
  blank cell otherwise.
\<close>

definition col_append :: "rdfterm \<Rightarrow> rdfterm \<times> sipGraph \<Rightarrow> rdfterm \<times> sipGraph" where
  "col_append item eg =
     (let (end, g) = eg in
      if objects (triples g) end RDF_first \<noteq> [] then
        (let (node, g1) = newBNode g;
             g2 = graph_add (end, RDF_rest, node) (graph_remove (Some end, Some RDF_rest, None) g1)
         in (node, graph_add (node, RDF_rest, RDF_nil) (graph_add (node, RDF_first, item) g2)))
      else (end, graph_add (end, RDF_rest, RDF_nil) (graph_add (end, RDF_first, item) g)))"

text \<open>\<open>Collection(graph, None)\<close> followed by one \<open>append\<close> per item; answers the head.\<close>

definition Collection_fill :: "rdfterm list \<Rightarrow> sipGraph \<Rightarrow> rdfterm \<times> sipGraph" where
  "Collection_fill xs g =
     (let (uri, g1) = newBNode g in (uri, snd (fold col_append xs (uri, g1))))"

text \<open>
  \<open>Collection.clear\<close>: walk the cells from the head, removing the \<open>rdf:first\<close> and
  \<open>rdf:rest\<close> triples of each. A step that goes on has removed an \<open>rdf:rest\<close> triple,
  so the walk ends on every graph.
\<close>

function col_clear :: "rdfterm option \<Rightarrow> triple list \<Rightarrow> triple list" where
  "col_clear None ts = ts"
| "col_clear (Some c) ts =
     (if \<not> truthy c then ts
      else (let rest = first (objects ts c RDF_rest);
                ts' = filter (\<lambda>t. \<not> matches (Some c, Some RDF_rest, None) t)
                        (filter (\<lambda>t. \<not> matches (Some c, Some RDF_first, None) t) ts)
            in if rest = None then ts' else col_clear rest ts'))"
  by pat_completeness auto

definition SKOLEMIZED_CLASS_NS :: "rdfterm \<Rightarrow> rdfterm" where
  "SKOLEMIZED_CLASS_NS b = URIRef (''http://code.google.com/p/python-dlp/wiki/SkolemTerm#'' @ str b)"

text \<open>
  The constructor of \<open>SIPGraphArc\<close>: it types a new arc node as \<open>magic:SipArc\<close>, stores
  the variables as the arc's bindings collection and adds the edge
  \<open>(left, arc, right)\<close> (both branches of \<open>headPassing\<close> add the same triple).
\<close>

definition SIPGraphArc :: "rdfterm \<Rightarrow> rdfterm \<Rightarrow> rdfterm list \<Rightarrow> sipGraph \<Rightarrow> sipGraph" where
  "SIPGraphArc left right variables g =
     (let (b, g1) = newBNode g;
          arc = SKOLEMIZED_CLASS_NS b;
          g2 = graph_add (arc, RDF_type, MAGIC ''SipArc'') g1;
          (b2, g3) = newBNode g2;
          (e, g4) = fold col_append variables (b2, g3);
          g5 = graph_add (arc, MAGIC ''bindings'', b2) g4
      in graph_add (left, arc, right) g5)"

text \<open>
  The query \<open>SELECT ?N ?prop ?q { ?prop a magic:SipArc . ?N ?prop ?q }\<close>: the arcs of
  the graph.
\<close>

definition sipArcs :: "triple list \<Rightarrow> triple list" where
  "sipArcs ts = filter (\<lambda>(n, prop, q). (prop, RDF_type, MAGIC ''SipArc'') \<in> set ts) ts"

text \<open>
  \<open>validSip\<close>: false on a graph without triples; false when the query finds a subject
  of \<open>magic:bindings\<close> whose bindings node has no \<open>rdf:first\<close>; true otherwise.
\<close>

definition emptyBindings :: "triple list \<Rightarrow> triple list" where
  "emptyBindings ts =
     filter (\<lambda>(arc, p, b). p = MAGIC ''bindings'' \<and> objects ts b RDF_first = []) ts"

definition validSip :: "sipGraph \<Rightarrow> bool" where
  "validSip g =
     (if length (triples g) = 0 then False
      else if emptyBindings (triples g) \<noteq> [] then False
      else True)"

section \<open>The ordering search\<close>

definition intersects :: "'a list \<Rightarrow> 'a list \<Rightarrow> bool" where
  "intersects xs ys = (\<exists>x \<in> set xs. x \<in> set ys)"

text \<open>
  The start of \<open>findFullSip\<close>: when no variables are carried (\<open>None\<close> or empty), they
  are the arguments of a one-literal prefix, or the \<open>reduce\<close> over a longer one. That
  \<open>reduce\<close> calls \<open>GetArgs\<close> on its own result from the third literal on, and has no
  initial value for an empty prefix: both raise \<open>TypeError\<close>.
\<close>

definition initialVars :: "literal list \<Rightarrow> rdfterm list option \<Rightarrow> py_error + rdfterm list" where
  "initialVars rt vars =
     (let start =
            (case rt of
               [l] \<Rightarrow> Inr (GetArgs l True)
             | [l, r] \<Rightarrow> Inr (filter isVarOrBNode (GetArgs l True @ GetArgs r True))
             | _ \<Rightarrow> Inl TypeError)
      in case vars of
           None \<Rightarrow> start
         | Some vs \<Rightarrow> if vs = [] then start else Inr vs)"

text \<open>
  The search itself, on carried variables that are set. \<open>isAnd\<close> says whether \<open>right\<close>
  is an \<open>And\<close> (the clause body at the first call) or a Python list (every recursive
  call passes the list comprehension \<open>[i for i in right if i != item]\<close>). The base case
  is \<open>yield rt + list(right) if isinstance(right, And) else right\<close>: a conditional
  expression, whose else branch is \<open>right\<close> alone. The recursive call carries
  \<open>_inVars\<close>, which holds \<open>vars\<close> and is not empty, so its own start keeps it.
\<close>

function findFullSipFrom ::
  "literal list \<Rightarrow> rdfterm list \<Rightarrow> bool \<Rightarrow> literal list \<Rightarrow> literal list list" where
  "findFullSipFrom rt vars isAnd right =
     (if length right = 1 then
        (if intersects (GetArgs (hd right) True) vars
         then [if isAnd then rt @ right else right]
         else [])
      else
        concat (map (\<lambda>item.
          (let vs = remdups (filter isVarOrBNode (GetArgs item True)) in
           if intersects vs vars then
             findFullSipFrom (rt @ [item])
               (remdups vars @ filter (\<lambda>v. v \<notin> set vars) vs)
               False
               (filter (\<lambda>i. i \<noteq> item) right)
           else [])) right))"
  by pat_completeness auto

definition findFullSip ::
  "literal list \<times> rdfterm list option \<Rightarrow> bool \<Rightarrow> literal list \<Rightarrow> py_error + literal list list" where
  "findFullSip rtvars isAnd right =
     (case initialVars (fst rtvars) (snd rtvars) of
        Inl e \<Rightarrow> Inl e
      | Inr vars \<Rightarrow> Inr (findFullSipFrom (fst rtvars) vars isAnd right))"

section \<open>Building the natural SIP\<close>

text \<open>
  \<open>adornedHead\<close>: whether it is an \<open>AdornedUniTerm\<close>, its adornment, and what
  \<open>getDistinguishedVariables(varsOnly=True)\<close> answers (the class lives in
  \<open>FuXi.Rete.Magic\<close>; its answer is taken as given).
\<close>

record adornedHead =
  isAdornedUniTerm :: bool
  adornment :: string
  distinguishedVariables :: "rdfterm list"

record clause =
  head :: literal
  body :: body

text \<open>
  The accumulator of \<open>reduce(collectSip, \<dots>)\<close>: the first literal of the sequence, or
  the list \<open>collectSip\<close> answered. A list element carries whether the object has the
  \<open>isHead\<close> attribute, which \<open>collectSip\<close> sets on the literal it receives alone.
\<close>

datatype acc = Lit literal | Lits "(bool \<times> literal) list"

fun CollectSIPArcVars :: "acc \<Rightarrow> literal \<Rightarrow> rdfterm list \<Rightarrow> rdfterm list" where
  "CollectSIPArcVars (Lits left) right phBoundVars =
     filter (\<lambda>v. v \<in> set (GetArgs right True))
       (remdups (concat (map (\<lambda>(isHead, t).
          if isHead \<and> phBoundVars \<noteq> [] then phBoundVars else GetArgs t True) left)))"
| "CollectSIPArcVars (Lit left) right phBoundVars =
     filter (\<lambda>v. v \<in> set (GetArgs right True))
       (remdups (if phBoundVars \<noteq> [] then phBoundVars else GetArgs left True))"

text \<open>
  \<open>collectSip\<close> answers the new accumulator or raises, and changes the graph on the
  way: a list on the left is written to the graph as a collection of operators; a head
  on the left is typed \<open>magic:BoundHeadPredicate\<close> when the head is bound. The calls
  that would add the arc (\<open>SIPGraphArc\<close>) and coin the occurrence identifier are
  commented out in the source.
\<close>

fun collectSip ::
  "rdfterm list \<Rightarrow> bool \<Rightarrow> bool \<Rightarrow> acc \<Rightarrow> literal \<Rightarrow> sipGraph \<Rightarrow> (py_error + acc) \<times> sipGraph" where
  "collectSip phBoundVars ignoreUnboundDPreds boundHead (Lits left) right g =
     (let vars = CollectSIPArcVars (Lits left) right phBoundVars in
      if vars = [] \<and> ignoreUnboundDPreds then (Inl InvalidSIPException, g)
      else
        (let left' = remdups left;
             (uri, g') = Collection_fill (map (\<lambda>(isHead, ii). GetOp ii) left') g
         in (Inr (Lits (left' @ [(False, right)])), g')))"
| "collectSip phBoundVars ignoreUnboundDPreds boundHead (Lit left) right g =
     (let vars = CollectSIPArcVars (Lit left) right phBoundVars in
      if vars = [] \<and> ignoreUnboundDPreds then (Inl InvalidSIPException, g)
      else
        (let ph = GetOp left in
         if boundHead then
           (Inr (Lits [(True, left), (False, right)]),
            graph_add (ph, RDF_type, MAGIC ''BoundHeadPredicate'') g)
         else (Inr (Lits [(False, right)]), g)))"

text \<open>\<open>reduce(collectSip, xs)\<close>: the fold stops at the first exception.\<close>

fun reduceFrom ::
  "rdfterm list \<Rightarrow> bool \<Rightarrow> bool \<Rightarrow> acc \<Rightarrow> literal list \<Rightarrow> sipGraph \<Rightarrow> (py_error + acc) \<times> sipGraph" where
  "reduceFrom pb ig bh a [] g = (Inr a, g)"
| "reduceFrom pb ig bh a (x # xs) g =
     (case collectSip pb ig bh a x g of
        (Inl e, g') \<Rightarrow> (Inl e, g')
      | (Inr a', g') \<Rightarrow> reduceFrom pb ig bh a' xs g')"

fun reduceCollectSip ::
  "rdfterm list \<Rightarrow> bool \<Rightarrow> bool \<Rightarrow> literal list \<Rightarrow> sipGraph \<Rightarrow> (py_error + acc) \<times> sipGraph" where
  "reduceCollectSip pb ig bh [] g = (Inl TypeError, g)"
| "reduceCollectSip pb ig bh (x # xs) g = reduceFrom pb ig bh (Lit x) xs g"

fun iterCondition :: "literal \<Rightarrow> literal list" where
  "iterCondition (Exists f) = iterCondition f"
| "iterCondition l = [l]"

fun isNaf :: "literal \<Rightarrow> bool" where
  "isNaf (Uniterm op s ob naf) = naf"
| "isNaf l = False"

text \<open>
  Modelled from the spec: \<open>ProperSipOrderWithNegation\<close> (module \<open>FuXi.DLP.Negation\<close>)
  is not among the sources. The spec's words for it: an ordering is proper when every
  negated literal appears after all atoms providing its variable bindings. An atom
  provides a binding of a negated literal when it is positive and shares a variable
  with it.
\<close>

definition providesBinding :: "literal \<Rightarrow> literal \<Rightarrow> bool" where
  "providesBinding a n = (\<not> isNaf a \<and> intersects (GetVariables a True) (GetVariables n True))"

fun ProperSipOrderWithNegation :: "literal list \<Rightarrow> bool" where
  "ProperSipOrderWithNegation [] = True"
| "ProperSipOrderWithNegation (l # ls) =
     ((if isNaf l then list_all (\<lambda>a. \<not> providesBinding a l) ls else True)
      \<and> ProperSipOrderWithNegation ls)"

text \<open>
  The loop of the \<open>ignoreUnboundDPreds\<close> branch: take the next ordering, fold
  \<open>collectSip\<close> over it, and go on to the following ordering when the fold raises
  \<open>InvalidSIPException\<close>; with no ordering left, raise \<open>InvalidSIPException\<close>. What a
  failed fold wrote to the graph stays there.
\<close>

fun trySips ::
  "rdfterm list \<Rightarrow> bool \<Rightarrow> literal list list \<Rightarrow> sipGraph \<Rightarrow> (py_error + literal list) \<times> sipGraph" where
  "trySips pb bh [] g = (Inl InvalidSIPException, g)"
| "trySips pb bh (sip # sips) g =
     (case reduceCollectSip pb True bh sip g of
        (Inl e, g') \<Rightarrow> (if e = InvalidSIPException then trySips pb bh sips g' else (Inl e, g'))
      | (Inr a, g') \<Rightarrow> (Inr sip, g'))"

text \<open>
  The choice of \<open>bodyOrder\<close> for a conjunctive body, with the fold that goes with it:
  the two branches of \<open>if ignoreUnboundDPreds\<close>.
\<close>

definition selectBodyOrder ::
  "literal \<Rightarrow> literal list \<Rightarrow> rdfterm list \<Rightarrow> bool \<Rightarrow> bool \<Rightarrow> sipGraph
     \<Rightarrow> (py_error + literal list) \<times> sipGraph" where
  "selectBodyOrder hd_lit lits pb bh ignoreUnboundDPreds g =
     (case findFullSip ([hd_lit], None) True lits of
        Inl e \<Rightarrow> (Inl e, g)
      | Inr sips \<Rightarrow>
          if ignoreUnboundDPreds then trySips pb bh sips g
          else
            (let bodyOrder =
                   (if filter isNaf lits \<noteq> []
                    then first (filter ProperSipOrderWithNegation sips)
                    else first sips)
             in case bodyOrder of
                  None \<Rightarrow> (Inl AssertionError, g)
                | Some bo \<Rightarrow>
                    if bo = [] then (Inl AssertionError, g)
                    else (case reduceCollectSip pb False bh bo g of
                            (Inl e, g') \<Rightarrow> (Inl e, g')
                          | (Inr a, g') \<Rightarrow> (Inr bo, g'))))"

text \<open>
  The generalisation to arcs into derived predicates. For every arc of the query the
  condition reads \<open>occurLookup[q]\<close> first (\<open>KeyError\<close> when the occurrence is not
  recorded), then \<open>occurLookup[q] not in hybridPreds2Replace if hybridPreds2Replace
  else False\<close>. The arcs kept for removal are removed after the loop, their source and
  bindings collections cleared.
\<close>

fun arcsToDrop ::
  "(rdfterm \<rightharpoonup> rdfterm) \<Rightarrow> rdfterm list \<Rightarrow> rdfterm list option \<Rightarrow> triple list
     \<Rightarrow> py_error + triple list" where
  "arcsToDrop occurLookup derivedPreds hybridPreds2Replace [] = Inr []"
| "arcsToDrop occurLookup derivedPreds hybridPreds2Replace ((n, prop, q) # arcs) =
     (case occurLookup q of
        None \<Rightarrow> Inl KeyError
      | Some p \<Rightarrow>
          (case arcsToDrop occurLookup derivedPreds hybridPreds2Replace arcs of
             Inl e \<Rightarrow> Inl e
           | Inr rest \<Rightarrow>
               if p \<notin> set derivedPreds
                  \<and> (case hybridPreds2Replace of
                       None \<Rightarrow> False
                     | Some hs \<Rightarrow> if hs \<noteq> [] then p \<notin> set hs else False)
               then Inr ((n, prop, q) # rest)
               else Inr rest))"

definition dropArc :: "triple \<Rightarrow> sipGraph \<Rightarrow> sipGraph" where
  "dropArc arc g =
     (case arc of (n, prop, q) \<Rightarrow>
        graph_remove (Some prop, None, None) (graph_remove (Some n, Some prop, Some q) g))"

definition clearArcCollections :: "triple list \<Rightarrow> triple \<Rightarrow> sipGraph \<Rightarrow> sipGraph" where
  "clearArcCollections ts0 arc g =
     (case arc of (n, prop, q) \<Rightarrow>
        (let g1 = g\<lparr>triples := col_clear (Some n) (triples g)\<rparr>
         in g1\<lparr>triples := col_clear (first (objects ts0 prop (MAGIC ''bindings''))) (triples g1)\<rparr>))"

definition generalizeSip ::
  "(rdfterm \<rightharpoonup> rdfterm) \<Rightarrow> rdfterm list \<Rightarrow> rdfterm list option \<Rightarrow> sipGraph
     \<Rightarrow> py_error + sipGraph" where
  "generalizeSip occurLookup derivedPreds hybridPreds2Replace g =
     (case arcsToDrop occurLookup derivedPreds hybridPreds2Replace (sipArcs (triples g)) of
        Inl e \<Rightarrow> Inl e
      | Inr arcs \<Rightarrow>
          Inr (fold (clearArcCollections (triples g)) arcs (fold dropArc arcs g)))"

text \<open>
  \<open>BuildNaturalSIP\<close>. \<open>occurLookup\<close> is the empty dictionary the function creates and
  never fills.
\<close>

definition buildGraph ::
  "clause \<Rightarrow> adornedHead \<Rightarrow> bool \<Rightarrow> py_error + sipGraph" where
  "buildGraph cl ah ignoreUnboundDPreds =
     (let boundHead = (isAdornedUniTerm ah \<and> CHR ''b'' \<in> set (adornment ah));
          phBoundVars = distinguishedVariables ah
      in case body cl of
           And lits \<Rightarrow>
             (case selectBodyOrder (head cl) lits phBoundVars boundHead ignoreUnboundDPreds Graph of
                (Inl e, g) \<Rightarrow> Inl e
              | (Inr bodyOrder, g) \<Rightarrow> Inr (g\<lparr>sipOrder := Some (And (tl bodyOrder))\<rparr>))
         | Single l \<Rightarrow>
             (if boundHead then
                (case reduceCollectSip phBoundVars ignoreUnboundDPreds boundHead
                        (iterCondition (head cl) @ iterCondition l) Graph of
                   (Inl e, g) \<Rightarrow> Inl e
                 | (Inr a, g) \<Rightarrow> Inr (g\<lparr>sipOrder := Some (Single l)\<rparr>))
              else Inr (Graph\<lparr>sipOrder := Some (Single l)\<rparr>)))"

definition BuildNaturalSIP ::
  "clause \<Rightarrow> rdfterm list \<Rightarrow> adornedHead \<Rightarrow> rdfterm list option \<Rightarrow> bool \<Rightarrow> py_error + sipGraph" where
  "BuildNaturalSIP cl derivedPreds ah hybridPreds2Replace ignoreUnboundDPreds =
     (case buildGraph cl ah ignoreUnboundDPreds of
        Inl e \<Rightarrow> Inl e
      | Inr sipGraph \<Rightarrow>
          if derivedPreds \<noteq> [] then generalizeSip Map.empty derivedPreds hybridPreds2Replace sipGraph
          else Inr sipGraph)"


section \<open>The same-generation program\<close>

text \<open>
  The recursive rule of the module's docstring,
  \<open>sg(X,Y) :- up(X,Z1), sg(Z1,Z2), flat(Z2,Z3), sg(Z3,Z4), down(Z4,Y)\<close>, and the head
  adornment \<open>ff\<close> (no bound argument, so no distinguished bound variable).
\<close>

definition ex :: "string \<Rightarrow> rdfterm" where
  "ex n = URIRef (''http://example.org/'' @ n)"

definition atom :: "string \<Rightarrow> string \<Rightarrow> string \<Rightarrow> literal" where
  "atom p a b = Uniterm (ex p) (Variable a) (Variable b) False"

definition sgBody :: "literal list" where
  "sgBody = [atom ''up'' ''X'' ''Z1'', atom ''sg'' ''Z1'' ''Z2'', atom ''flat'' ''Z2'' ''Z3'',
             atom ''sg'' ''Z3'' ''Z4'', atom ''down'' ''Z4'' ''Y'']"

definition sgClause :: clause where
  "sgClause = \<lparr>head = atom ''sg'' ''X'' ''Y'', body = And sgBody\<rparr>"

definition adorned_ff :: adornedHead where
  "adorned_ff = \<lparr>isAdornedUniTerm = True, adornment = ''ff'', distinguishedVariables = []\<rparr>"

text \<open>
  The exit rule \<open>sg(X,Y) :- And(flat(X,Y))\<close> and the head adornment \<open>bf\<close>, whose
  distinguished bound variable is \<open>X\<close>.
\<close>

definition flatClause :: clause where
  "flatClause = \<lparr>head = atom ''sg'' ''X'' ''Y'', body = And [atom ''flat'' ''X'' ''Y'']\<rparr>"

definition adorned_bf :: adornedHead where
  "adorned_bf =
     \<lparr>isAdornedUniTerm = True, adornment = ''bf'', distinguishedVariables = [Variable ''X'']\<rparr>"

text \<open>
  The graph with the arc \<open>{up, sg} --Z2--> flat\<close> of the recursive rule, built the way
  the commented-out call in \<open>collectSip\<close> reads:
  \<open>SIPGraphArc(leftList.uri, getOccurrenceId(right, occurLookup), vars, sipGraph)\<close>;
  and the \<open>occurLookup\<close> that call fills.
\<close>

definition arcGraph :: sipGraph where
  "arcGraph =
     (let (n, g1) = Collection_fill [ex ''up'', ex ''sg''] Graph;
          (q, lk) = getOccurrenceId (atom ''flat'' ''Z2'' ''Z3'') Map.empty
      in SIPGraphArc n q [Variable ''Z2''] g1)"

definition arcLookup :: "rdfterm \<rightharpoonup> rdfterm" where
  "arcLookup = snd (getOccurrenceId (atom ''flat'' ''Z2'' ''Z3'') Map.empty)"

text \<open>A string without the separator of \<open>getOccurrenceId\<close>.\<close>

definition sepFree :: "string \<Rightarrow> bool" where
  "sepFree s = (CHR ''_'' \<notin> set s)"

section \<open>The backward-chaining store\<close>

text \<open>
  A binding environment is a Python \<open>dict\<close> from variables to terms. A triple pattern
  is \<open>(s, p, o)\<close>.
\<close>

type_synonym bindings = "rdfterm \<rightharpoonup> rdfterm"

text \<open>
  What \<open>EDBQuery(\<dots>).evaluate()\<close> answers: a boolean, or a sequence of rows. What
  \<open>invokeDecisionProcedure\<close> yields: a dictionary for an open goal, a boolean for a
  ground one.
\<close>

datatype edbAnswer = EDBBool bool | EDBRows "bindings list"

datatype goalAnswer = AnsDict bindings | AnsBool bool

text \<open>
  The fields of the store the strategies read (\<open>idb\<close> holds the rule objects, as
  addresses into the heap of rule objects below), and the collaborators that are not
  among the sources, taken as given: \<open>evaluate tp bindings\<close> is
  \<open>EDBQuery([BuildUnitermFromTuple(tp)], self.edb, bindings).evaluate()\<close>;
  \<open>decide tp bindings\<close> is the sequence of answers of the derived branch (the adorned
  program, the SIP collection and \<open>invokeDecisionProcedure\<close>);
  \<open>mergeMappings\<close> is \<open>mergeMappings1To2\<close>; \<open>edbQuery triples vars\<close> is the result of
  the SPARQL query \<open>batch_unify\<close> sends to the fact graph.
\<close>

record store =
  idb :: "nat list"
  derivedPredicates :: "rdfterm list"
  hybridPredicates :: "rdfterm list"
  evaluate :: "triple \<Rightarrow> bindings \<Rightarrow> edbAnswer"
  decide :: "triple \<Rightarrow> bindings \<Rightarrow> goalAnswer list"
  mergeMappings :: "bindings \<Rightarrow> bindings \<Rightarrow> bindings"
  edbQuery :: "triple list \<Rightarrow> rdfterm list \<Rightarrow> rdfterm list list"

fun derivedPredicateFromTriple :: "store \<Rightarrow> triple \<Rightarrow> rdfterm option" where
  "derivedPredicateFromTriple self (s, p, ob) =
     (if p \<in> set (derivedPredicates self) \<or> p \<in> set (hybridPredicates self) then Some p
      else if p = RDF_type \<and> ob \<noteq> p
              \<and> (ob \<in> set (derivedPredicates self) \<or> ob \<in> set (hybridPredicates self))
      then Some ob
      else None)"

text \<open>
  The solution of the base branch: \<open>item = {}; item.update(rt[idx]);
  item.update(bindings)\<close>.
\<close>

definition rowItem :: "bindings \<Rightarrow> bindings \<Rightarrow> bindings" where
  "rowItem row bindings = (Map.empty ++ row) ++ bindings"

text \<open>
  \<open>conjunctiveSipStrategy\<close> is a generator over an iterator of goals. The model
  answers the solutions it yields, in order, and how many goals it has pulled from
  the iterator. The base branch hands every row its own \<open>tee\<close> copy of the iterator,
  so the iterator advances as far as the copy that went farthest; a true boolean
  answer yields the bindings at once. The derived branch hands the one iterator to
  the recursive call of every answer, so each answer goes on where the answer before
  it stopped.
\<close>

function conjunctiveSipStrategy ::
  "store \<Rightarrow> triple list \<Rightarrow> bindings \<Rightarrow> bindings list \<times> nat" where
  "conjunctiveSipStrategy self [] bindings = ([bindings], 0)"
| "conjunctiveSipStrategy self (tp # goalsRemaining) bindings =
     (case derivedPredicateFromTriple self tp of
        None \<Rightarrow>
          (case evaluate self tp bindings of
             EDBBool rt \<Rightarrow> (if rt then [bindings] else [], 1)
           | EDBRows rt \<Rightarrow>
               (let rs = map (\<lambda>row. conjunctiveSipStrategy self goalsRemaining
                                      (rowItem row bindings)) rt
                in (concat (map fst rs), Suc (fold max (map snd rs) 0))))
      | Some dPred \<Rightarrow>
          (case fold (\<lambda>nextAnswer (yielded, pulled).
                   (case nextAnswer of
                      AnsDict d \<Rightarrow>
                        (let (ys, n) = conjunctiveSipStrategy self (drop pulled goalsRemaining)
                                         (mergeMappings self bindings d)
                         in (yielded @ ys, pulled + n))
                    | AnsBool ok \<Rightarrow>
                        (if ok then
                           (let (ys, n) = conjunctiveSipStrategy self
                                            (drop pulled goalsRemaining) bindings
                            in (yielded @ ys, pulled + n))
                         else (yielded, pulled))))
                 (decide self tp bindings) ([], 0) of
             (yielded, pulled) \<Rightarrow> (yielded, Suc pulled)))"
  by pat_completeness auto

text \<open>
  \<open>batch_unify\<close>. The generator yields dictionaries and may raise while it is
  iterated: the model answers what is yielded before, and the exception if there is
  one. A result row is a tuple of terms; with at most one variable the store's result
  iterates over terms, and a row stands for its term.
\<close>

definition batchPredicates :: "store \<Rightarrow> (rdfterm \<times> rdfterm \<times> rdfterm \<times> rdfterm) list \<Rightarrow> rdfterm list" where
  "batchPredicates self patterns =
     remdups (map (\<lambda>(s, p, ob, g).
        (let dPred = (if p = RDF_type then ob else p) in
         if dPred \<in> set (hybridPredicates self) then URIRef (str dPred @ ''_derived'')
         else (if p = RDF_type \<and> truthy ob then ob else p))) patterns)"

fun rowDicts :: "rdfterm list \<Rightarrow> rdfterm list list \<Rightarrow> bindings list \<times> py_error option" where
  "rowDicts vars [] = ([], None)"
| "rowDicts vars (v # rt) =
     (if length v > length vars then ([], Some IndexError)
      else (case rowDicts vars rt of
              (ds, e) \<Rightarrow> (map_of (zip vars v) # ds, e)))"

fun termDicts :: "rdfterm list \<Rightarrow> rdfterm list list \<Rightarrow> bindings list \<times> py_error option" where
  "termDicts vars [] = ([], None)"
| "termDicts vars (v # rt) =
     (case vars of
        [] \<Rightarrow> ([], Some IndexError)
      | var # vars' \<Rightarrow>
          (case termDicts vars rt of
             (ds, e) \<Rightarrow> ((case v of [] \<Rightarrow> Map.empty | x # xs \<Rightarrow> [var \<mapsto> x]) # ds, e)))"

definition batch_unify ::
  "store \<Rightarrow> (rdfterm \<times> rdfterm \<times> rdfterm \<times> rdfterm) list \<Rightarrow> bindings list \<times> py_error option" where
  "batch_unify self patterns =
     (let goals = map (\<lambda>(s, p, ob, g). (s, p, ob)) patterns;
          dPreds = batchPredicates self patterns
      in if intersects dPreds (derivedPredicates self) then
           (fst (conjunctiveSipStrategy self goals Map.empty), None)
         else
           (let vars = remdups (concat (map (\<lambda>(s, p, ob). filter isVariable [s, p, ob]) goals));
                rt = edbQuery self goals vars
            in if length vars > 1 then rowDicts vars rt else termDicts vars rt))"

text \<open>
  The merge rule of the spec: two environments can be merged when they agree on
  every variable both bind.
\<close>

definition agreeOnShared :: "bindings \<Rightarrow> bindings \<Rightarrow> bool" where
  "agreeOnShared a b = (\<forall>k \<in> dom a \<inter> dom b. a k = b k)"

text \<open>
  A store whose only derived predicate is \<open>sg\<close> and whose fact graph answers every
  base query with the given rows; the goal \<open>p(?X, ?Y)\<close>, over a base predicate.
\<close>

definition baseStore :: "bindings list \<Rightarrow> store" where
  "baseStore rows =
     \<lparr>idb = [], derivedPredicates = [ex ''sg''], hybridPredicates = [],
      evaluate = (\<lambda>tp b. EDBRows rows), decide = (\<lambda>tp b. []),
      mergeMappings = (\<lambda>a b. a ++ b), edbQuery = (\<lambda>ts vs. [[]])\<rparr>"




definition groundPattern :: "rdfterm \<times> rdfterm \<times> rdfterm \<times> rdfterm" where
  "groundPattern = (ex ''a'', ex ''up'', ex ''b'', ex ''g'')"

section \<open>Hybrid-predicate preparation\<close>

text \<open>
  Rule objects live in a heap: \<open>objs\<close> gives the clause at an address, \<open>nextAddr\<close> is
  the first address not yet allocated. \<open>copy.deepcopy\<close> allocates a new object with
  the value of the old one.
\<close>

record ruleHeap =
  objs :: "nat \<Rightarrow> clause"
  nextAddr :: nat

definition alloc :: "clause \<Rightarrow> ruleHeap \<Rightarrow> nat \<times> ruleHeap" where
  "alloc c h =
     (nextAddr h, h\<lparr>objs := (objs h)(nextAddr h := c), nextAddr := Suc (nextAddr h)\<rparr>)"

definition deepcopy :: "nat \<Rightarrow> ruleHeap \<Rightarrow> nat \<times> ruleHeap" where
  "deepcopy a h = alloc (objs h a) h"

text \<open>\<open>list(map(copy.deepcopy, self.idb))\<close>.\<close>

fun copyRules :: "nat list \<Rightarrow> ruleHeap \<Rightarrow> nat list \<times> ruleHeap" where
  "copyRules [] h = ([], h)"
| "copyRules (a # as) h =
     (case deepcopy a h of (a', h1) \<Rightarrow>
        (case copyRules as h1 of (as', h2) \<Rightarrow> (a' # as', h2)))"

text \<open>
  \<open>ReplaceHybridPredcates\<close> and \<open>CreateHybridPredicateRule\<close> (module
  \<open>FuXi.Rete.Magic\<close>) are not among the sources. The first is taken as a rewrite
  \<open>rewrite hybrids clause\<close> it applies in place to every rule object of the list it is
  handed; the second as a function \<open>bridge predicate program\<close> of the predicate and the
  rules it reads, whose result is a new rule object.
\<close>

definition ReplaceHybridPredcates ::
  "(rdfterm list \<Rightarrow> clause \<Rightarrow> clause) \<Rightarrow> nat list \<Rightarrow> rdfterm list \<Rightarrow> ruleHeap \<Rightarrow> ruleHeap" where
  "ReplaceHybridPredcates rewrite rules hybrids h =
     fold (\<lambda>a h. h\<lparr>objs := (objs h)(a := rewrite hybrids (objs h a))\<rparr>) rules h"

definition derivedName :: "rdfterm \<Rightarrow> rdfterm" where
  "derivedName p = URIRef (str p @ ''_derived'')"

fun appendBridgeRules ::
  "(rdfterm \<Rightarrow> clause list \<Rightarrow> clause) \<Rightarrow> nat list \<Rightarrow> rdfterm list \<Rightarrow> nat list \<times> ruleHeap
     \<Rightarrow> nat list \<times> ruleHeap" where
  "appendBridgeRules bridge idb0 [] rh = rh"
| "appendBridgeRules bridge idb0 (hp # hps) (rules, h) =
     (case alloc (bridge hp (map (objs h) idb0)) h of
        (a, h') \<Rightarrow> appendBridgeRules bridge idb0 hps (rules @ [a], h'))"

text \<open>
  \<open>hybridPredicatePreparation\<close> answers the new derived predicates and the new rules
  (the formulae of the \<open>Ruleset\<close> it builds), and the heap it leaves.
\<close>

definition hybridPredicatePreparation ::
  "(rdfterm list \<Rightarrow> clause \<Rightarrow> clause) \<Rightarrow> (rdfterm \<Rightarrow> clause list \<Rightarrow> clause) \<Rightarrow> store \<Rightarrow> ruleHeap
     \<Rightarrow> (rdfterm list \<times> nat list) \<times> ruleHeap" where
  "hybridPredicatePreparation rewrite bridge self h =
     (case copyRules (idb self) h of (new_rules, h1) \<Rightarrow>
        (case appendBridgeRules bridge (idb self) (hybridPredicates self)
                (new_rules, ReplaceHybridPredcates rewrite new_rules (hybridPredicates self) h1) of
           (new_rules', h3) \<Rightarrow>
             ((remdups (filter (\<lambda>i. i \<notin> set (hybridPredicates self)) (derivedPredicates self)
                        @ map derivedName (hybridPredicates self)),
               new_rules'), h3)))"

text \<open>
  Modelled from the spec: the rewrite of \<open>ReplaceHybridPredcates\<close> and the rule of
  \<open>CreateHybridPredicateRule\<close>, which are not among the sources. The spec's words:
  rewrite every IDB occurrence of a hybrid predicate to the symbol suffixed
  \<open>_derived\<close>; synthesize a bridge rule \<open>p_derived(X\<dots>) :- p(X\<dots>)\<close>.
\<close>

definition renameLiteral :: "rdfterm list \<Rightarrow> literal \<Rightarrow> literal" where
  "renameLiteral hybrids l =
     (if GetOp l \<in> set hybrids then
        (case SetOp l (derivedName (GetOp l)) of Inr l' \<Rightarrow> l' | Inl e \<Rightarrow> l)
      else l)"

definition renameClause :: "rdfterm list \<Rightarrow> clause \<Rightarrow> clause" where
  "renameClause hybrids c =
     \<lparr>head = renameLiteral hybrids (head c),
      body = (case body c of
                And ls \<Rightarrow> And (map (renameLiteral hybrids) ls)
              | Single l \<Rightarrow> Single (renameLiteral hybrids l))\<rparr>"

definition bridgeRule :: "rdfterm \<Rightarrow> clause list \<Rightarrow> clause" where
  "bridgeRule p program =
     \<lparr>head = Uniterm (derivedName p) (Variable ''X'') (Variable ''Y'') False,
      body = Single (Uniterm p (Variable ''X'') (Variable ''Y'') False)\<rparr>"

text \<open>
  The hybrid predicate \<open>p\<close> with the rule \<open>p(X,Y) :- q(X,Y)\<close>, the only rule object of
  the heap.
\<close>

definition hybridStore :: store where
  "hybridStore =
     \<lparr>idb = [0], derivedPredicates = [ex ''p''], hybridPredicates = [ex ''p''],
      evaluate = (\<lambda>tp b. EDBBool False), decide = (\<lambda>tp b. []),
      mergeMappings = (\<lambda>a b. a ++ b), edbQuery = (\<lambda>ts vs. [])\<rparr>"

definition hybridHeap :: ruleHeap where
  "hybridHeap =
     \<lparr>objs = (\<lambda>a. \<lparr>head = atom ''p'' ''X'' ''Y'', body = Single (atom ''q'' ''X'' ''Y'')\<rparr>),
      nextAddr = 1\<rparr>"

text \<open>
  What "unchanged below the allocation pointer" means for two heaps.
\<close>

definition frame :: "ruleHeap \<Rightarrow> ruleHeap \<Rightarrow> bool" where
  "frame h h' = (nextAddr h \<le> nextAddr h' \<and> (\<forall>a < nextAddr h. objs h' a = objs h a))"


definition adorned_b :: adornedHead where
  "adorned_b =
     \<lparr>isAdornedUniTerm = True, adornment = ''b'', distinguishedVariables = [Variable ''X'']\<rparr>"


section \<open>Termination of the collection walk\<close>

lemma filter_drops_one:
  "x \<in> set xs \<Longrightarrow> \<not> P x \<Longrightarrow> length (filter P xs) < length xs"
  by (induction xs) (auto simp: less_Suc_eq_le)

lemma objects_first_mem:
  "first (objects ts c p) = Some r \<Longrightarrow> (c, p, r) \<in> set ts"
proof -
  assume a: "first (objects ts c p) = Some r"
  then obtain rs where "objects ts c p = r # rs"
    by (cases "objects ts c p") auto
  then have "r \<in> set (objects ts c p)" by simp
  then show ?thesis by (auto simp: objects_def)
qed

termination col_clear
proof (relation "measure (\<lambda>(c, ts). length ts)", goal_cases)
  case 1
  show ?case by simp
next
  case (2 c ts rest ts')
  then obtain r where r: "first (objects ts c RDF_rest) = Some r" by auto
  have m: "(c, RDF_rest, r) \<in> set ts" using r by (rule objects_first_mem)
  let ?f = "filter (\<lambda>t. \<not> matches (Some c, Some RDF_first, None) t) ts"
  have "(c, RDF_rest, r) \<in> set ?f" using m by (simp add: RDF_rest_def RDF_first_def)
  then have "length (filter (\<lambda>t. \<not> matches (Some c, Some RDF_rest, None) t) ?f) < length ?f"
    by (rule filter_drops_one) simp
  also have "\<dots> \<le> length ts" by simp
  finally show ?case using 2 by simp
qed

declare col_clear.simps [simp del]

section \<open>Termination of the ordering search\<close>

termination findFullSipFrom
proof (relation "measure (\<lambda>(rt, vars, isAnd, right). length right)", goal_cases)
  case 1
  show ?case by simp
next
  case (2 rt vars isAnd right item vs)
  have "length (filter (\<lambda>i. i \<noteq> item) right) < length right"
    using 2(2) by (rule filter_drops_one) simp
  then show ?case by simp
qed

declare findFullSipFrom.simps [simp del]

section \<open>Termination of the conjunctive strategy\<close>

termination conjunctiveSipStrategy
  by (relation "measure (\<lambda>(self, goals, bindings). length goals)") auto

section \<open>The term model: SetOp\<close>

text \<open>
  C7. \<open>SetOp\<close> is claimed to succeed on the existential wrapper by delegating to the
  wrapped formula, as \<open>GetOp\<close> and \<open>GetArgs\<close> do. The code has no branch for \<open>Exists\<close>:
  on a wrapped type predicate \<open>GetOp\<close> answers the class, and \<open>SetOp\<close> raises.
\<close>

theorem SetOp_Exists_raises:
  "SetOp (Exists (Uniterm RDF_type (Variable ''X'') (URIRef ''ex:C'') False)) (URIRef ''ex:D'')
     = Inl PyException
   \<and> GetOp (Exists (Uniterm RDF_type (Variable ''X'') (URIRef ''ex:C'') False)) = URIRef ''ex:C''
   \<and> GetArgs (Exists (Uniterm RDF_type (Variable ''X'') (URIRef ''ex:C'') False)) False
     = [Variable ''X'']"
  by (simp add: truthy_def)

section \<open>The ordering search: what the base case yields\<close>


text \<open>
  C2. The claim: at the base case the yielded ordering is \<open>prefix ++ remaining\<close>, so
  every ordering holds all literals of the body, the seed prefix first. On a Python
  list, which is what every recursive call passes, the base case yields \<open>remaining\<close>
  alone: with prefix \<open>[sg(X,Y)]\<close>, carried variable \<open>X\<close> and remaining \<open>[up(X,Z1)]\<close> the
  ordering is \<open>[up(X,Z1)]\<close>; and on the same-generation body the first ordering is
  \<open>[down(Z4,Y)]\<close> and every ordering has one literal.
\<close>

theorem findFullSip_base_case_drops_prefix:
  "findFullSip ([atom ''sg'' ''X'' ''Y''], Some [Variable ''X'']) False [atom ''up'' ''X'' ''Z1'']
     = Inr [[atom ''up'' ''X'' ''Z1'']]
   \<and> (case findFullSip ([atom ''sg'' ''X'' ''Y''], None) True sgBody of
         Inl e \<Rightarrow> False
       | Inr sips \<Rightarrow> first sips = Some [atom ''down'' ''Z4'' ''Y'']
                     \<and> list_all (\<lambda>sip. length sip = 1) sips)"
  by code_simp

section \<open>BuildNaturalSIP: the arcs of the graph\<close>

text \<open>
  C1. The claim: the graph returned for the same-generation rule under adornment \<open>ff\<close>
  holds one arc per contiguous pair of the ordering, among them \<open>{up} --Z1--> sg\<close>. The
  code returns a graph without any triple, so without any arc, and with an empty
  \<open>sipOrder\<close>.
\<close>

theorem BuildNaturalSIP_sg_has_no_arc:
  "(case BuildNaturalSIP sgClause [] adorned_ff None False of
      Inl e \<Rightarrow> False
    | Inr g \<Rightarrow> triples g = [] \<and> sipArcs (triples g) = [] \<and> sipOrder g = Some (And []))"
  by code_simp

section \<open>The validity predicate\<close>

lemma emptyBindings_Nil:
  "emptyBindings ts = [] \<longleftrightarrow>
     (\<forall>(arc, p, b) \<in> set ts. p = MAGIC ''bindings'' \<longrightarrow> objects ts b RDF_first \<noteq> [])"
  unfolding emptyBindings_def filter_empty_conv by fastforce

text \<open>
  C5, as claimed: \<open>validSip\<close> is true exactly when the graph has an arc and every arc
  has bindings, so it is false on every graph without arcs. The graph
  \<open>BuildNaturalSIP\<close> returns for the exit rule under adornment \<open>bf\<close> holds the
  \<open>BoundHeadPredicate\<close> triple only: it has no arc, and \<open>validSip\<close> is true on it.
\<close>

theorem validSip_without_arc_counterexample:
  "(case BuildNaturalSIP flatClause [ex ''sg''] adorned_bf None True of
      Inl e \<Rightarrow> False
    | Inr g \<Rightarrow> validSip g \<and> sipArcs (triples g) = []
               \<and> triples g = [(ex ''sg'', RDF_type, MAGIC ''BoundHeadPredicate'')])"
  by code_simp

text \<open>
  C5, amended: \<open>validSip\<close> is true exactly when the graph holds at least one triple and
  every node that is the object of a \<open>magic:bindings\<close> triple has an \<open>rdf:first\<close>, that
  is every bindings list is non-empty.
\<close>

theorem validSip_iff_nonempty_graph:
  "validSip g \<longleftrightarrow>
     (triples g \<noteq> [] \<and>
      (\<forall>(arc, p, b) \<in> set (triples g).
          p = MAGIC ''bindings'' \<longrightarrow> objects (triples g) b RDF_first \<noteq> []))"
  unfolding emptyBindings_Nil[symmetric] by (simp add: validSip_def)

theorem validSip_iff_nonempty_graph_witness:
  "validSip arcGraph \<and> triples arcGraph \<noteq> []
   \<and> (\<exists>(arc, p, b) \<in> set (triples arcGraph). p = MAGIC ''bindings'')"
proof -
  have v: "validSip arcGraph" by code_simp
  have e: "list_ex (\<lambda>(arc, p, b). p = MAGIC ''bindings'') (triples arcGraph)" by code_simp
  from v validSip_iff_nonempty_graph[of arcGraph] have "triples arcGraph \<noteq> []" by blast
  with v e show ?thesis by (simp add: list_ex_iff)
qed

section \<open>Occurrence identifiers\<close>

lemma takeWhile_sep:
  "CHR ''_'' \<notin> set x \<Longrightarrow> takeWhile (\<lambda>c. c \<noteq> CHR ''_'') (x @ CHR ''_'' # r) = x"
  by (induction x) auto

lemma split_at_sep:
  assumes "sepFree x" "sepFree y" "x @ CHR ''_'' # r = y @ CHR ''_'' # r'"
  shows "x = y \<and> r = r'"
proof -
  have "takeWhile (\<lambda>c. c \<noteq> CHR ''_'') (x @ CHR ''_'' # r) = x"
    using assms(1) by (simp add: sepFree_def takeWhile_sep)
  moreover have "takeWhile (\<lambda>c. c \<noteq> CHR ''_'') (y @ CHR ''_'' # r') = y"
    using assms(2) by (simp add: sepFree_def takeWhile_sep)
  ultimately have "x = y" using assms(3) by simp
  with assms(3) show ?thesis by simp
qed

lemma no_sep_in_free: "sepFree x \<Longrightarrow> x \<noteq> y @ CHR ''_'' # r"
  by (auto simp: sepFree_def)

lemma join_inj:
  "list_all sepFree xs \<Longrightarrow> list_all sepFree ys \<Longrightarrow> xs \<noteq> [] \<Longrightarrow> ys \<noteq> []
     \<Longrightarrow> join ''_'' xs = join ''_'' ys \<Longrightarrow> xs = ys"
proof (induction xs arbitrary: ys)
  case Nil
  then show ?case by simp
next
  case (Cons x xs)
  then obtain y ys' where ys: "ys = y # ys'" by (cases ys) auto
  show ?case
  proof (cases xs)
    case Nil
    note xsNil = Nil
    show ?thesis
    proof (cases ys')
      case Nil
      with xsNil ys Cons.prems show ?thesis by simp
    next
      case (Cons z zs)
      with xsNil ys Cons.prems have "x = y @ CHR ''_'' # join ''_'' (z # zs)" by simp
      moreover have "sepFree x" using Cons.prems(1) by simp
      ultimately show ?thesis using no_sep_in_free by blast
    qed
  next
    case (Cons x2 xs2)
    note xsCons = Cons
    show ?thesis
    proof (cases ys')
      case Nil
      with xsCons ys Cons.prems have "y = x @ CHR ''_'' # join ''_'' (x2 # xs2)" by simp
      moreover have "sepFree y" using Cons.prems(2) ys by simp
      ultimately show ?thesis using no_sep_in_free by blast
    next
      case (Cons z zs)
      with xsCons ys Cons.prems(5)
      have e: "x @ CHR ''_'' # join ''_'' xs = y @ CHR ''_'' # join ''_'' ys'" by simp
      have "sepFree x" "sepFree y" using Cons.prems(1,2) ys by simp_all
      from split_at_sep[OF this e]
      have xy: "x = y" and j: "join ''_'' xs = join ''_'' ys'" by simp_all
      have "xs = ys'"
        using Cons.IH[of ys'] Cons.prems(1,2) ys xsCons Cons j by simp
      with xy ys show ?thesis by simp
    qed
  qed
qed

lemma GetArgs_nonempty: "GetArgs l so \<noteq> []"
  by (induction l) auto

lemma occurrenceString_join:
  "occurrenceString l = join ''_'' (str (GetOp l) # map str (GetArgs l False))"
proof -
  obtain a as where "GetArgs l False = a # as"
    using GetArgs_nonempty[of l False] by (cases "GetArgs l False") auto
  then show ?thesis by (simp add: occurrenceString_def)
qed

lemma split_last_sep:
  assumes "sepFree a" "sepFree b" "x @ CHR ''_'' # a = y @ CHR ''_'' # b"
  shows "x = y \<and> a = b"
proof -
  from assms(3) have "rev (x @ CHR ''_'' # a) = rev (y @ CHR ''_'' # b)" by simp
  then have e: "rev a @ CHR ''_'' # rev x = rev b @ CHR ''_'' # rev y" by simp
  have "sepFree (rev a)" "sepFree (rev b)" using assms(1,2) by (simp_all add: sepFree_def)
  from split_at_sep[OF this e] show ?thesis by simp
qed

lemma occurrence_foldl:
  "as \<noteq> [] \<Longrightarrow> x @ ''_'' @ join ''_'' as = foldl (\<lambda>s a. s @ CHR ''_'' # a) x as"
proof (induction as arbitrary: x)
  case Nil
  then show ?case by simp
next
  case (Cons a as)
  show ?case
  proof (cases as)
    case Nil
    then show ?thesis by simp
  next
    case (Cons b bs)
    then have "as \<noteq> []" by simp
    from Cons.IH[OF this, of "x @ CHR ''_'' # a"] Cons show ?thesis by simp
  qed
qed

lemma foldl_sep_inj:
  "length as = length bs \<Longrightarrow> list_all sepFree as \<Longrightarrow> list_all sepFree bs
     \<Longrightarrow> foldl (\<lambda>s a. s @ CHR ''_'' # a) x as = foldl (\<lambda>s a. s @ CHR ''_'' # a) y bs
     \<Longrightarrow> x = y \<and> as = bs"
proof (induction as arbitrary: bs rule: rev_induct)
  case Nil
  then show ?case by simp
next
  case (snoc a as)
  from snoc.prems(1) have "bs \<noteq> []" by auto
  then obtain bs' b where bs: "bs = bs' @ [b]" by (cases bs rule: rev_cases) auto
  from snoc.prems(4) bs
  have e: "foldl (\<lambda>s a. s @ CHR ''_'' # a) x as @ CHR ''_'' # a
             = foldl (\<lambda>s a. s @ CHR ''_'' # a) y bs' @ CHR ''_'' # b" by simp
  have "sepFree a" "sepFree b" using snoc.prems(2,3) bs by simp_all
  from split_last_sep[OF this e]
  have f: "foldl (\<lambda>s a. s @ CHR ''_'' # a) x as = foldl (\<lambda>s a. s @ CHR ''_'' # a) y bs'"
    and ab: "a = b" by simp_all
  have "x = y \<and> as = bs'"
    using snoc.IH[of bs'] snoc.prems(1,2,3) bs f by simp
  with ab bs show ?case by simp
qed

lemma occurrenceString_foldl:
  "occurrenceString l
     = foldl (\<lambda>s a. s @ CHR ''_'' # a) (str (GetOp l)) (map str (GetArgs l False))"
  unfolding occurrenceString_def
  by (rule occurrence_foldl) (simp add: GetArgs_nonempty)

lemma occurrenceString_inj:
  assumes "list_all sepFree (map str (GetArgs u False))"
    and "list_all sepFree (map str (GetArgs w False))"
    and "length (GetArgs u False) = length (GetArgs w False)
         \<or> sepFree (str (GetOp u)) \<and> sepFree (str (GetOp w))"
    and "occurrenceString u = occurrenceString w"
  shows "str (GetOp u) = str (GetOp w) \<and> map str (GetArgs u False) = map str (GetArgs w False)"
  using assms(3)
proof
  assume "length (GetArgs u False) = length (GetArgs w False)"
  then have "length (map str (GetArgs u False)) = length (map str (GetArgs w False))" by simp
  from foldl_sep_inj[OF this assms(1,2)] assms(4) show ?thesis
    by (simp add: occurrenceString_foldl)
next
  assume "sepFree (str (GetOp u)) \<and> sepFree (str (GetOp w))"
  with assms(1,2)
  have "list_all sepFree (str (GetOp u) # map str (GetArgs u False))"
    and "list_all sepFree (str (GetOp w) # map str (GetArgs w False))" by simp_all
  from join_inj[OF this] assms(4) show ?thesis by (simp add: occurrenceString_join)
qed

text \<open>
  C6, as claimed: distinct occurrences in one body get distinct identifiers. The
  identifier is the operator and the arguments joined by \<open>_\<close>, so \<open>p(?a_b, ?c)\<close> and
  \<open>p(?a, ?b_c)\<close>, two occurrences of \<open>p\<close>, share the identifier \<open>p_a_b_c\<close>; and so do
  the type predicate \<open>p_a(?b)\<close> and the triple \<open>p(?a, ?b)\<close>, whose arguments are written
  without \<open>_\<close>.
\<close>

theorem getOccurrenceId_not_injective_counterexample:
  "Uniterm (ex ''p'') (Variable ''a_b'') (Variable ''c'') False
     \<noteq> Uniterm (ex ''p'') (Variable ''a'') (Variable ''b_c'') False
   \<and> fst (getOccurrenceId (Uniterm (ex ''p'') (Variable ''a_b'') (Variable ''c'') False) Map.empty)
     = fst (getOccurrenceId (Uniterm (ex ''p'') (Variable ''a'') (Variable ''b_c'') False) Map.empty)
   \<and> Uniterm RDF_type (Variable ''b'') (ex ''p_a'') False
     \<noteq> Uniterm (ex ''p'') (Variable ''a'') (Variable ''b'') False
   \<and> fst (getOccurrenceId (Uniterm RDF_type (Variable ''b'') (ex ''p_a'') False) Map.empty)
     = fst (getOccurrenceId (Uniterm (ex ''p'') (Variable ''a'') (Variable ''b'') False) Map.empty)"
  by (simp add: getOccurrenceId_def occurrenceString_def ex_def RDF_type_def RDF_ns_def Let_def
        truthy_def)

text \<open>
  C6, amended. The identifier of every literal is stable: it does not depend on the
  lookup dictionary. Two literals with the same operator string and the same
  first-order argument strings share one identifier. Conversely, two literals whose
  arguments are written without \<open>_\<close>, and which have the same number of arguments or
  have operators written without \<open>_\<close> as well, share an identifier only when their
  operator strings and their argument strings are the same.
\<close>

theorem getOccurrenceId_stable_and_injective:
  "fst (getOccurrenceId u lk) = fst (getOccurrenceId u lk')
   \<and> (str (GetOp u) = str (GetOp w) \<and> map str (GetArgs u False) = map str (GetArgs w False)
        \<longrightarrow> fst (getOccurrenceId u lk) = fst (getOccurrenceId w lk'))
   \<and> (list_all sepFree (map str (GetArgs u False))
        \<and> list_all sepFree (map str (GetArgs w False))
        \<and> (length (GetArgs u False) = length (GetArgs w False)
             \<or> sepFree (str (GetOp u)) \<and> sepFree (str (GetOp w)))
        \<and> fst (getOccurrenceId u lk) = fst (getOccurrenceId w lk')
        \<longrightarrow> str (GetOp u) = str (GetOp w)
            \<and> map str (GetArgs u False) = map str (GetArgs w False))"
proof (intro conjI impI)
  show "fst (getOccurrenceId u lk) = fst (getOccurrenceId u lk')"
    by (simp add: getOccurrenceId_def Let_def)
next
  assume "str (GetOp u) = str (GetOp w) \<and> map str (GetArgs u False) = map str (GetArgs w False)"
  then show "fst (getOccurrenceId u lk) = fst (getOccurrenceId w lk')"
    by (simp add: getOccurrenceId_def Let_def occurrenceString_def)
next
  assume a: "list_all sepFree (map str (GetArgs u False))
        \<and> list_all sepFree (map str (GetArgs w False))
        \<and> (length (GetArgs u False) = length (GetArgs w False)
             \<or> sepFree (str (GetOp u)) \<and> sepFree (str (GetOp w)))
        \<and> fst (getOccurrenceId u lk) = fst (getOccurrenceId w lk')"
  then have "occurrenceString u = occurrenceString w"
    by (simp add: getOccurrenceId_def Let_def)
  with a have r: "str (GetOp u) = str (GetOp w)
      \<and> map str (GetArgs u False) = map str (GetArgs w False)"
    by (intro occurrenceString_inj) simp_all
  from r show "str (GetOp u) = str (GetOp w)" ..
  from r show "map str (GetArgs u False) = map str (GetArgs w False)" ..
qed

theorem getOccurrenceId_stable_and_injective_witness:
  "list_all sepFree (map str (GetArgs (Uniterm (ex ''sg_derived'') (Variable ''Z1'') (Variable ''Z2'') False) False))
   \<and> list_all sepFree (map str (GetArgs (Uniterm (ex ''sg_derived'') (Variable ''Z1'') (Variable ''Z2'') True) False))
   \<and> length (GetArgs (Uniterm (ex ''sg_derived'') (Variable ''Z1'') (Variable ''Z2'') False) False)
     = length (GetArgs (Uniterm (ex ''sg_derived'') (Variable ''Z1'') (Variable ''Z2'') True) False)
   \<and> fst (getOccurrenceId (Uniterm (ex ''sg_derived'') (Variable ''Z1'') (Variable ''Z2'') False) Map.empty)
     = fst (getOccurrenceId (Uniterm (ex ''sg_derived'') (Variable ''Z1'') (Variable ''Z2'') True) Map.empty)
   \<and> str (GetOp (Uniterm (ex ''sg_derived'') (Variable ''Z1'') (Variable ''Z2'') False))
     = str (GetOp (Uniterm (ex ''sg_derived'') (Variable ''Z1'') (Variable ''Z2'') True))
   \<and> map str (GetArgs (Uniterm (ex ''sg_derived'') (Variable ''Z1'') (Variable ''Z2'') False) False)
     = map str (GetArgs (Uniterm (ex ''sg_derived'') (Variable ''Z1'') (Variable ''Z2'') True) False)"
  using getOccurrenceId_stable_and_injective
          [of "Uniterm (ex ''sg_derived'') (Variable ''Z1'') (Variable ''Z2'') False"
              Map.empty Map.empty
              "Uniterm (ex ''sg_derived'') (Variable ''Z1'') (Variable ''Z2'') True"]
  by (simp add: getOccurrenceId_def occurrenceString_def ex_def sepFree_def
        RDF_type_def RDF_ns_def Let_def)

section \<open>The ordering selected for a body with negated literals\<close>












section \<open>BuildNaturalSIP never writes an arc\<close>
















section \<open>BuildNaturalSIP: arcs into derived predicates only\<close>

text \<open>
  The generalisation block on a graph that holds an arc. \<open>BuildNaturalSIP\<close> never hands
  it one: on the graph with the arc \<open>{up, sg} --Z2--> flat\<close> the block raises
  \<open>KeyError\<close> under the empty \<open>occurLookup\<close> of \<open>BuildNaturalSIP\<close>; under a lookup
  that records the occurrence it leaves the arc when \<open>hybridPreds2Replace\<close> is \<open>None\<close>
  or empty, and drops it under a hybrid set that is not empty.
\<close>

lemma generalizeSip_on_arc_graph:
  "generalizeSip Map.empty [ex ''sg''] None arcGraph = Inl KeyError
   \<and> generalizeSip arcLookup [ex ''sg''] None arcGraph = Inr arcGraph
   \<and> generalizeSip arcLookup [ex ''sg''] (Some []) arcGraph = Inr arcGraph
   \<and> (case generalizeSip arcLookup [ex ''sg''] (Some [ex ''hybrid'']) arcGraph of
         Inl e \<Rightarrow> False
       | Inr g \<Rightarrow> sipArcs (triples g) = [])"
  by code_simp



section \<open>The conjunctive strategy: rows of a base query\<close>



lemma disjoint_agree: "dom row \<inter> dom b = {} \<Longrightarrow> agreeOnShared row b"
  by (simp add: agreeOnShared_def)




section \<open>batch_unify on ground patterns\<close>

lemma termDicts_Nil_vars: "rt \<noteq> [] \<Longrightarrow> termDicts [] rt = ([], Some IndexError)"
  by (cases rt) auto

text \<open>
  C10. When the patterns involve no derived predicate, no position of any pattern is
  a variable and the store's query answers at least one result, iterating
  \<open>batch_unify\<close> raises \<open>IndexError\<close> before anything is yielded.
\<close>

theorem batch_unify_ground_raises_IndexError:
  assumes "\<not> intersects (batchPredicates self patterns) (derivedPredicates self)"
    and "\<forall>(s, p, ob, g) \<in> set patterns. \<not> isVariable s \<and> \<not> isVariable p \<and> \<not> isVariable ob"
    and "edbQuery self (map (\<lambda>(s, p, ob, g). (s, p, ob)) patterns) [] \<noteq> []"
  shows "batch_unify self patterns = ([], Some IndexError)"
proof -
  have h: "concat (map (\<lambda>(s, p, ob). filter isVariable [s, p, ob])
             (map (\<lambda>(s, p, ob, g). (s, p, ob)) patterns)) = []"
    using assms(2) by (induction patterns) auto
  have v: "remdups (concat (map (\<lambda>(s, p, ob). filter isVariable [s, p, ob])
             (map (\<lambda>(s, p, ob, g). (s, p, ob)) patterns))) = []"
    unfolding h by simp
  show ?thesis unfolding batch_unify_def Let_def v using assms(1,3)
    by (simp add: termDicts_Nil_vars)
qed

theorem batch_unify_ground_raises_IndexError_witness:
  "\<not> intersects (batchPredicates (baseStore []) [groundPattern]) (derivedPredicates (baseStore []))
   \<and> list_all (\<lambda>(s, p, ob, g). \<not> isVariable s \<and> \<not> isVariable p \<and> \<not> isVariable ob)
         [groundPattern]
   \<and> edbQuery (baseStore []) (map (\<lambda>(s, p, ob, g). (s, p, ob)) [groundPattern]) [] \<noteq> []
   \<and> batch_unify (baseStore []) [groundPattern] = ([], Some IndexError)"
  using batch_unify_ground_raises_IndexError[of "baseStore []" "[groundPattern]"]
  by (simp add: groundPattern_def baseStore_def intersects_def batchPredicates_def ex_def
        RDF_type_def RDF_ns_def)

section \<open>Hybrid-predicate preparation leaves the rules it copies\<close>

lemma frame_refl: "frame h h"
  by (simp add: frame_def)

lemma frame_trans: "frame h h1 \<Longrightarrow> frame h1 h2 \<Longrightarrow> frame h h2"
  by (auto simp: frame_def)

lemma alloc_frame:
  "alloc c h = (a, h') \<Longrightarrow> frame h h' \<and> a = nextAddr h \<and> nextAddr h' = Suc a"
  by (auto simp: alloc_def frame_def)

lemma copyRules_frame:
  "copyRules as h = (as', h')
     \<Longrightarrow> frame h h' \<and> (\<forall>a \<in> set as'. nextAddr h \<le> a \<and> a < nextAddr h')"
proof (induction as arbitrary: h as' h')
  case Nil
  then show ?case by (simp add: frame_refl)
next
  case (Cons a as)
  obtain a1 h1 where d: "deepcopy a h = (a1, h1)" by (cases "deepcopy a h")
  obtain as2 h2 where c: "copyRules as h1 = (as2, h2)" by (cases "copyRules as h1")
  from Cons.prems d c have e: "as' = a1 # as2" "h' = h2" by simp_all
  from d have f1: "frame h h1" "a1 = nextAddr h" "nextAddr h1 = Suc a1"
    using alloc_frame[of "objs h a" h a1 h1] by (simp_all add: deepcopy_def)
  from Cons.IH[OF c]
  have f2: "frame h1 h2" "\<forall>x \<in> set as2. nextAddr h1 \<le> x \<and> x < nextAddr h2" by simp_all
  have "frame h h2" using f1(1) f2(1) by (rule frame_trans)
  moreover have "nextAddr h1 \<le> nextAddr h2" using f2(1) by (simp add: frame_def)
  ultimately show ?case using e f1 f2 by auto
qed

lemma Replace_frame:
  "\<forall>a \<in> set rules. n \<le> a \<Longrightarrow>
     nextAddr (ReplaceHybridPredcates rewrite rules hybrids h) = nextAddr h
     \<and> (\<forall>a < n. objs (ReplaceHybridPredcates rewrite rules hybrids h) a = objs h a)"
  unfolding ReplaceHybridPredcates_def
  by (induction rules arbitrary: h) auto

lemma appendBridgeRules_frame:
  "appendBridgeRules bridge idb0 hps (rules, h) = (rules', h')
     \<Longrightarrow> \<forall>a \<in> set rules. n \<le> a \<Longrightarrow> n \<le> nextAddr h
     \<Longrightarrow> frame h h' \<and> (\<forall>a \<in> set rules'. n \<le> a)"
proof (induction hps arbitrary: rules h)
  case Nil
  then show ?case by (simp add: frame_refl)
next
  case (Cons hp hps)
  obtain a h1 where al: "alloc (bridge hp (map (objs h) idb0)) h = (a, h1)"
    by (cases "alloc (bridge hp (map (objs h) idb0)) h")
  from alloc_frame[OF al] have f: "frame h h1" "a = nextAddr h" "nextAddr h1 = Suc a" by simp_all
  from Cons.prems(1) al
  have r: "appendBridgeRules bridge idb0 hps (rules @ [a], h1) = (rules', h')" by simp
  have "\<forall>x \<in> set (rules @ [a]). n \<le> x" using Cons.prems(2,3) f(2) by auto
  moreover have "n \<le> nextAddr h1" using Cons.prems(3) f by simp
  ultimately have "frame h1 h' \<and> (\<forall>a \<in> set rules'. n \<le> a)" using Cons.IH[OF r] by blast
  with f(1) show ?case using frame_trans by blast
qed

text \<open>
  C9. When the rules of \<open>self.idb\<close> are objects of the heap, every one of them holds
  after \<open>hybridPredicatePreparation\<close> the clause it held before, whatever the rewrite
  of the hybrid predicates does to the rules it is handed; and no rule of the new
  rule set is one of these objects.
\<close>

theorem hybridPredicatePreparation_keeps_original_rules:
  assumes "\<forall>a \<in> set (idb self). a < nextAddr h"
  shows "(\<forall>a \<in> set (idb self).
            objs (snd (hybridPredicatePreparation rewrite bridge self h)) a = objs h a)
       \<and> (\<forall>a \<in> set (snd (fst (hybridPredicatePreparation rewrite bridge self h))).
            a \<notin> set (idb self))"
proof -
  obtain nr h1 where c: "copyRules (idb self) h = (nr, h1)"
    by (cases "copyRules (idb self) h")
  let ?h2 = "ReplaceHybridPredcates rewrite nr (hybridPredicates self) h1"
  obtain nr' h3
    where b: "appendBridgeRules bridge (idb self) (hybridPredicates self) (nr, ?h2) = (nr', h3)"
    by (cases "appendBridgeRules bridge (idb self) (hybridPredicates self) (nr, ?h2)")
  from c b have e: "snd (hybridPredicatePreparation rewrite bridge self h) = h3"
    and e2: "snd (fst (hybridPredicatePreparation rewrite bridge self h)) = nr'"
    by (simp_all add: hybridPredicatePreparation_def)
  from copyRules_frame[OF c]
  have f1: "frame h h1" and fr: "\<forall>a \<in> set nr. nextAddr h \<le> a" by auto
  from Replace_frame[OF fr, of rewrite "hybridPredicates self" h1]
  have f2: "nextAddr ?h2 = nextAddr h1" "\<forall>a < nextAddr h. objs ?h2 a = objs h1 a"
    by simp_all
  have le: "nextAddr h \<le> nextAddr ?h2" using f1 f2(1) by (simp add: frame_def)
  from appendBridgeRules_frame[OF b fr le]
  have f3: "frame ?h2 h3" and new: "\<forall>a \<in> set nr'. nextAddr h \<le> a" by simp_all
  have old: "objs h3 a = objs h a" if "a \<in> set (idb self)" for a
  proof -
    from that assms have lt: "a < nextAddr h" by simp
    then have "a < nextAddr ?h2" using le by simp
    then have "objs h3 a = objs ?h2 a" using f3 by (simp add: frame_def)
    also have "\<dots> = objs h1 a" using f2(2) lt by simp
    also have "\<dots> = objs h a" using f1 lt by (simp add: frame_def)
    finally show ?thesis .
  qed
  have "a \<notin> set (idb self)" if "a \<in> set nr'" for a
    using that new assms by fastforce
  with old e e2 show ?thesis by simp
qed

theorem hybridPredicatePreparation_keeps_original_rules_witness:
  "list_all (\<lambda>a. a < nextAddr hybridHeap) (idb hybridStore)
   \<and> objs (snd (hybridPredicatePreparation renameClause bridgeRule hybridStore hybridHeap)) 0
       = \<lparr>head = atom ''p'' ''X'' ''Y'', body = Single (atom ''q'' ''X'' ''Y'')\<rparr>
   \<and> snd (fst (hybridPredicatePreparation renameClause bridgeRule hybridStore hybridHeap)) = [1, 2]
   \<and> head (objs (snd (hybridPredicatePreparation renameClause bridgeRule hybridStore hybridHeap)) 1)
       = Uniterm (derivedName (ex ''p'')) (Variable ''X'') (Variable ''Y'') False"
  using hybridPredicatePreparation_keeps_original_rules
          [of hybridStore hybridHeap renameClause bridgeRule]
  by (simp add: hybridStore_def hybridHeap_def hybridPredicatePreparation_def deepcopy_def
        alloc_def ReplaceHybridPredcates_def renameClause_def renameLiteral_def atom_def
        ex_def RDF_type_def RDF_ns_def derivedName_def)

end
